theory Spec2Isabelle
  imports
    Main
    "HOL-Library.Word"
    "HOL-Library.Signed_Division"
begin

unbundle bit_operations_syntax

section \<open>The canvas\<close>

text \<open>
  \<^verbatim>\<open>bigclock.c\<close> draws through four functions of the GUI library:
  \<^verbatim>\<open>canvas_draw_box\<close>, \<^verbatim>\<open>canvas_draw_frame\<close>, \<^verbatim>\<open>canvas_draw_str\<close> and
  \<^verbatim>\<open>canvas_set_font\<close>. The library is not part of the program, so the canvas is
  modelled by what the program does to it: the sequence of calls it has received, each
  with the argument values of the call, and the font selected last. C \<^verbatim>\<open>int\<close> is HOL
  \<open>int\<close>; \<^verbatim>\<open>/\<close> and \<^verbatim>\<open>%\<close> are the truncating \<open>sdiv\<close> and \<open>smod\<close>. Signed overflow is
  undefined in C, and no computation of \<^verbatim>\<open>draw_cb\<close> comes near it.
\<close>

datatype Font = FontPrimary | FontSecondary | FontKeyboard | FontBigNumbers

datatype canvas_call =
    DrawBox int int int int
  | DrawFrame int int int int
  | DrawStr int int string
  | SetFont Font

record Canvas =
  calls :: "canvas_call list"
  font :: Font

definition canvas_draw_box :: "Canvas \<Rightarrow> int \<Rightarrow> int \<Rightarrow> int \<Rightarrow> int \<Rightarrow> Canvas" where
  "canvas_draw_box c x y w h = c\<lparr>calls := calls c @ [DrawBox x y w h]\<rparr>"

definition canvas_draw_frame :: "Canvas \<Rightarrow> int \<Rightarrow> int \<Rightarrow> int \<Rightarrow> int \<Rightarrow> Canvas" where
  "canvas_draw_frame c x y w h = c\<lparr>calls := calls c @ [DrawFrame x y w h]\<rparr>"

definition canvas_draw_str :: "Canvas \<Rightarrow> int \<Rightarrow> int \<Rightarrow> string \<Rightarrow> Canvas" where
  "canvas_draw_str c x y s = c\<lparr>calls := calls c @ [DrawStr x y s]\<rparr>"

definition canvas_set_font :: "Canvas \<Rightarrow> Font \<Rightarrow> Canvas" where
  "canvas_set_font c f = c\<lparr>calls := calls c @ [SetFont f], font := f\<rparr>"

section \<open>Seven-segment digits\<close>

text \<open>
  The table \<^verbatim>\<open>segmap\<close>, entry by entry: \<^verbatim>\<open>0b0111111\<close>, \<^verbatim>\<open>0b0000110\<close>, \<^verbatim>\<open>0b1011011\<close>,
  \<^verbatim>\<open>0b1001111\<close>, \<^verbatim>\<open>0b1100110\<close>, \<^verbatim>\<open>0b1101101\<close>, \<^verbatim>\<open>0b1111101\<close>, \<^verbatim>\<open>0b0000111\<close>,
  \<^verbatim>\<open>0b1111111\<close>, \<^verbatim>\<open>0b1101111\<close>. Lemma \<open>segmap_binary\<close> below relates the numerals to
  these bit strings.
\<close>

definition segmap :: "8 word list" where
  "segmap = [63, 6, 91, 79, 102, 109, 125, 7, 127, 111]"

text \<open>
  Reading \<^verbatim>\<open>segmap[d]\<close>. A C array read outside the array is undefined; the model
  returns \<open>None\<close> there, so that a read out of range shows in the result of the caller.
\<close>

definition segmap_at :: "int \<Rightarrow> 8 word option" where
  "segmap_at d = (if 0 \<le> d \<and> d < int (length segmap) then Some (segmap ! nat d) else None)"

text \<open>The test \<^verbatim>\<open>m & (1 << k)\<close> of a C condition: the value is not zero.\<close>

definition seg_on :: "8 word \<Rightarrow> nat \<Rightarrow> bool" where
  "seg_on m k = (m AND push_bit k 1 \<noteq> 0)"

definition segdigit :: "Canvas \<Rightarrow> int \<Rightarrow> int \<Rightarrow> int \<Rightarrow> int \<Rightarrow> int \<Rightarrow> int \<Rightarrow> Canvas option" where
  "segdigit c x y w h t d =
    (if d < 0 \<or> d > 9 then Some c
     else case segmap_at d of
       None \<Rightarrow> None
     | Some m \<Rightarrow>
        (let ym = y + (h sdiv 2);
             half = h sdiv 2;
             c = (if seg_on m 0 then canvas_draw_box c x y w t else c);
             c = (if seg_on m 6 then canvas_draw_box c x (ym - (t sdiv 2)) w t else c);
             c = (if seg_on m 3 then canvas_draw_box c x (y + h - t) w t else c);
             c = (if seg_on m 5 then canvas_draw_box c x y t half else c);
             c = (if seg_on m 1 then canvas_draw_box c (x + w - t) y t half else c);
             c = (if seg_on m 4 then canvas_draw_box c x (y + h - half) t half else c);
             c = (if seg_on m 2 then canvas_draw_box c (x + w - t) (y + h - half) t half else c)
         in Some c))"

definition draw_colon :: "Canvas \<Rightarrow> int \<Rightarrow> int \<Rightarrow> int \<Rightarrow> Canvas" where
  "draw_colon c x y t =
    (let c = canvas_draw_box c x (y + 16) t t;
         c = canvas_draw_box c x (y + 40) t t
     in c)"

section \<open>The draw callback\<close>

text \<open>
  \<^verbatim>\<open>draw_cb\<close> reads the clock into a \<^verbatim>\<open>DateTime\<close> and uses three of its fields, each
  through a cast to \<^verbatim>\<open>int\<close>. The record holds the values of those casts.
\<close>

record DateTime =
  hour :: int
  minute :: int
  second :: int

subsection \<open>Derived digits\<close>

text \<open>
  The local \<^verbatim>\<open>H12\<close>: \<^verbatim>\<open>int H12 = H24 % 12; if(H12 == 0) H12 = 12;\<close>
\<close>

definition draw_cb_H12 :: "int \<Rightarrow> int" where
  "draw_cb_H12 H24 = (let H12 = H24 smod 12 in if H12 = 0 then 12 else H12)"

text \<open>
  The local \<^verbatim>\<open>ht\<close>: \<^verbatim>\<open>ht_raw = H12 / 10; ht = (ht_raw == 0) ? -1 : ht_raw;\<close>
\<close>

definition draw_cb_ht :: "int \<Rightarrow> int" where
  "draw_cb_ht H12 = (let ht_raw = H12 sdiv 10 in if ht_raw = 0 then - 1 else ht_raw)"

subsection \<open>Layout constants\<close>

text \<open>
  The \<^verbatim>\<open>const int\<close> locals of \<^verbatim>\<open>draw_cb\<close>, under their own names; the one-letter
  locals \<^verbatim>\<open>y\<close>, \<^verbatim>\<open>h\<close>, \<^verbatim>\<open>t\<close>, \<^verbatim>\<open>w\<close> and the local \<^verbatim>\<open>by\<close> carry the suffix \<open>_c\<close>.
\<close>

definition y_c :: int where "y_c = 2"
definition h_c :: int where "h_c = 60"
definition t_c :: int where "t_c = 7"

definition bar_area_w :: int where "bar_area_w = 12"
definition right_edge :: int where "right_edge = 128 - 2 - bar_area_w"

definition w_c :: int where "w_c = 23"
definition gap :: int where "gap = 3"
definition colon_w :: int where "colon_w = 6"
definition colon_gap :: int where "colon_gap = 2"

definition x0 :: int where "x0 = 2"

definition xH0 :: int where "xH0 = x0"
definition xH1 :: int where "xH1 = xH0 + w_c + gap"

definition cx :: int where "cx = xH1 + w_c + colon_gap"
definition xM0 :: int where "xM0 = cx + colon_w + colon_gap"
definition xM1 :: int where "xM1 = xM0 + w_c + gap"

definition steps :: int where "steps = 5"

definition bar_w :: int where "bar_w = 6"
definition bar_h :: int where "bar_h = 8"
definition bar_gap :: int where "bar_gap = 1"

definition bx :: int where "bx = right_edge + ((bar_area_w - bar_w) sdiv 2)"
definition by_c :: int where "by_c = 2"

definition col_h :: int where "col_h = (steps * bar_h) + ((steps - 1) * bar_gap)"
definition ap_x :: int where "ap_x = right_edge + 1"
definition ap_y0 :: int where "ap_y0 = by_c + col_h + 2"

subsection \<open>The guarded digit row\<close>

text \<open>
  The statement \<^verbatim>\<open>if(xM1 + w <= right_edge) { ... } else { ... }\<close> of \<^verbatim>\<open>draw_cb\<close>,
  as a function of the locals it reads, so that the guard can be examined at values
  other than the shipped ones.
\<close>

definition draw_cb_digits ::
  "Canvas \<Rightarrow> int \<Rightarrow> int \<Rightarrow> int \<Rightarrow> int \<Rightarrow> int \<Rightarrow> int \<Rightarrow> int \<Rightarrow> int \<Rightarrow> int \<Rightarrow> int \<Rightarrow> int
     \<Rightarrow> int \<Rightarrow> int \<Rightarrow> int \<Rightarrow> int \<Rightarrow> Canvas option" where
  "draw_cb_digits canvas xH0' xH1' cx' xM0' xM1' y h t w colon_w' right_edge' ht ho mt mo =
    (if xM1' + w \<le> right_edge' then
       (case segdigit canvas xH0' y w h t ht of None \<Rightarrow> None | Some c1 \<Rightarrow>
        case segdigit c1 xH1' y w h t ho of None \<Rightarrow> None | Some c2 \<Rightarrow>
        case segdigit (draw_colon c2 cx' y colon_w') xM0' y w h t mt of None \<Rightarrow> None | Some c3 \<Rightarrow>
        segdigit c3 xM1' y w h t mo)
     else Some (canvas_draw_box canvas 0 0 3 3))"

subsection \<open>The progress column\<close>

text \<open>
  \<^verbatim>\<open>count = (int)dt.second / 10; if(count > steps) count = steps;\<close>
\<close>

definition draw_cb_count :: "int \<Rightarrow> int" where
  "draw_cb_count sec = (let count = sec sdiv 10 in if count > steps then steps else count)"

text \<open>
  The loop \<^verbatim>\<open>for(int i = 0; i < count; i++)\<close>, entered at \<open>i\<close>.
\<close>

function draw_cb_loop :: "Canvas \<Rightarrow> int \<Rightarrow> int \<Rightarrow> Canvas" where
  "draw_cb_loop canvas count i =
    (if i < count then
       (let yy = by_c + i * (bar_h + bar_gap)
        in draw_cb_loop (canvas_draw_frame canvas bx yy bar_w bar_h) count (i + 1))
     else canvas)"
  by pat_completeness auto
termination
  by (relation "measure (\<lambda>(canvas, count, i). nat (count - i))") auto

declare draw_cb_loop.simps [simp del]

subsection \<open>The callback\<close>

definition draw_cb :: "DateTime \<Rightarrow> Canvas \<Rightarrow> Canvas option" where
  "draw_cb dt canvas =
    (let H24 = hour dt;
         M = minute dt;
         H12 = draw_cb_H12 H24;
         ht = draw_cb_ht H12;
         ho = H12 smod 10;
         mt = M sdiv 10;
         mo = M smod 10
     in case draw_cb_digits canvas xH0 xH1 cx xM0 xM1 y_c h_c t_c w_c colon_w right_edge
               ht ho mt mo of
          None \<Rightarrow> None
        | Some c1 \<Rightarrow>
           (let count = draw_cb_count (second dt);
                c2 = draw_cb_loop c1 count 0;
                is_pm = (hour dt \<ge> 12);
                is_am = (\<not> is_pm);
                c3 = canvas_set_font c2 FontKeyboard;
                c4 = (if is_am then canvas_draw_str c3 ap_x (ap_y0 + 7) ''AM'' else c3);
                c5 = (if is_pm then canvas_draw_str c4 ap_x (ap_y0 + 15) ''PM'' else c4)
            in Some (canvas_set_font c5 FontPrimary)))"

section \<open>Notions used to state the properties\<close>

subsection \<open>The segment alphabet\<close>

text \<open>
  The seven segments, with the bit each one has in a mask (the comment above
  \<^verbatim>\<open>segmap\<close>: 0 = a top, 1 = b upper right, 2 = c lower right, 3 = d bottom,
  4 = e lower left, 5 = f upper left, 6 = g middle).
\<close>

datatype segment = SegA | SegB | SegC | SegD | SegE | SegF | SegG

fun seg_bit :: "segment \<Rightarrow> nat" where
  "seg_bit SegA = 0"
| "seg_bit SegB = 1"
| "seg_bit SegC = 2"
| "seg_bit SegD = 3"
| "seg_bit SegE = 4"
| "seg_bit SegF = 5"
| "seg_bit SegG = 6"

text \<open>
  The traditional seven-segment alphabet, written down independently of the table: the
  segments lit for each digit.
\<close>

definition canonical_segments :: "nat \<Rightarrow> segment list" where
  "canonical_segments d =
    (if d = 0 then [SegA, SegB, SegC, SegD, SegE, SegF]
     else if d = 1 then [SegB, SegC]
     else if d = 2 then [SegA, SegB, SegD, SegE, SegG]
     else if d = 3 then [SegA, SegB, SegC, SegD, SegG]
     else if d = 4 then [SegB, SegC, SegF, SegG]
     else if d = 5 then [SegA, SegC, SegD, SegF, SegG]
     else if d = 6 then [SegA, SegC, SegD, SegE, SegF, SegG]
     else if d = 7 then [SegA, SegB, SegC]
     else if d = 8 then [SegA, SegB, SegC, SegD, SegE, SegF, SegG]
     else if d = 9 then [SegA, SegB, SegC, SegD, SegF, SegG]
     else [])"

text \<open>The mask of a list of segments: the bits of its members, and no other bit.\<close>

definition mask_of :: "segment list \<Rightarrow> 8 word" where
  "mask_of ss = fold (\<lambda>s m. m OR push_bit (seg_bit s) 1) ss 0"

text \<open>The segments a mask lights, as \<^verbatim>\<open>segdigit\<close> tests them.\<close>

definition lit_segments :: "8 word \<Rightarrow> segment list" where
  "lit_segments m =
     filter (\<lambda>s. seg_on m (seg_bit s)) [SegA, SegB, SegC, SegD, SegE, SegF, SegG]"

subsection \<open>The calls of one invocation\<close>

text \<open>The calls a canvas \<open>c'\<close> has received beyond those of an earlier canvas \<open>c\<close>.\<close>

definition issued :: "Canvas \<Rightarrow> Canvas \<Rightarrow> canvas_call list" where
  "issued c c' = drop (length (calls c)) (calls c')"

text \<open>The boxes of a mask, in the order \<^verbatim>\<open>segdigit\<close> draws them.\<close>

definition segment_boxes :: "int \<Rightarrow> int \<Rightarrow> int \<Rightarrow> int \<Rightarrow> int \<Rightarrow> 8 word \<Rightarrow> canvas_call list" where
  "segment_boxes x y w h t m =
     (if seg_on m 0 then [DrawBox x y w t] else [])
   @ (if seg_on m 6 then [DrawBox x (y + (h sdiv 2) - (t sdiv 2)) w t] else [])
   @ (if seg_on m 3 then [DrawBox x (y + h - t) w t] else [])
   @ (if seg_on m 5 then [DrawBox x y t (h sdiv 2)] else [])
   @ (if seg_on m 1 then [DrawBox (x + w - t) y t (h sdiv 2)] else [])
   @ (if seg_on m 4 then [DrawBox x (y + h - (h sdiv 2)) t (h sdiv 2)] else [])
   @ (if seg_on m 2 then [DrawBox (x + w - t) (y + h - (h sdiv 2)) t (h sdiv 2)] else [])"

definition digit_boxes :: "int \<Rightarrow> int \<Rightarrow> int \<Rightarrow> int \<Rightarrow> int \<Rightarrow> int \<Rightarrow> canvas_call list" where
  "digit_boxes x y w h t d =
     (if d < 0 \<or> d > 9 then [] else segment_boxes x y w h t (segmap ! nat d))"

definition digit_row ::
  "int \<Rightarrow> int \<Rightarrow> int \<Rightarrow> int \<Rightarrow> int \<Rightarrow> int \<Rightarrow> int \<Rightarrow> int \<Rightarrow> int \<Rightarrow> int
     \<Rightarrow> int \<Rightarrow> int \<Rightarrow> int \<Rightarrow> int \<Rightarrow> canvas_call list" where
  "digit_row xH0' xH1' cx' xM0' xM1' y h t w colon_w' ht ho mt mo =
     digit_boxes xH0' y w h t ht @ digit_boxes xH1' y w h t ho
   @ [DrawBox cx' (y + 16) colon_w' colon_w', DrawBox cx' (y + 40) colon_w' colon_w']
   @ digit_boxes xM0' y w h t mt @ digit_boxes xM1' y w h t mo"

definition clock_digits :: "DateTime \<Rightarrow> canvas_call list" where
  "clock_digits dt =
     digit_row xH0 xH1 cx xM0 xM1 y_c h_c t_c w_c colon_w
       (draw_cb_ht (draw_cb_H12 (hour dt))) (draw_cb_H12 (hour dt) smod 10)
       (minute dt sdiv 10) (minute dt smod 10)"

definition progress_frames :: "int \<Rightarrow> int \<Rightarrow> canvas_call list" where
  "progress_frames i count =
     map (\<lambda>k. DrawFrame bx (by_c + k * (bar_h + bar_gap)) bar_w bar_h) [i..count - 1]"

definition meridiem_calls :: "int \<Rightarrow> canvas_call list" where
  "meridiem_calls H24 =
     SetFont FontKeyboard
     # (if 12 \<le> H24 then DrawStr ap_x (ap_y0 + 15) ''PM'' else DrawStr ap_x (ap_y0 + 7) ''AM'')
     # [SetFont FontPrimary]"

definition frame_calls :: "DateTime \<Rightarrow> canvas_call list" where
  "frame_calls dt =
     clock_digits dt @ progress_frames 0 (draw_cb_count (second dt)) @ meridiem_calls (hour dt)"

text \<open>The kinds of call.\<close>

fun is_box :: "canvas_call \<Rightarrow> bool" where
  "is_box (DrawBox x y w h) = True"
| "is_box _ = False"

fun is_frame :: "canvas_call \<Rightarrow> bool" where
  "is_frame (DrawFrame x y w h) = True"
| "is_frame _ = False"

fun is_str :: "canvas_call \<Rightarrow> bool" where
  "is_str (DrawStr x y s) = True"
| "is_str _ = False"

fun is_font :: "canvas_call \<Rightarrow> bool" where
  "is_font (SetFont f) = True"
| "is_font _ = False"

subsection \<open>Geometry\<close>

text \<open>
  The canvas of the product is 128 pixels wide and 64 high. A box or a frame is within it
  when its origin and its sizes are not negative and its far edges do not pass the far
  edges of the canvas; a text origin is within it when it is one of its pixels.
\<close>

definition canvas_width :: int where "canvas_width = 128"
definition canvas_height :: int where "canvas_height = 64"

fun in_canvas :: "canvas_call \<Rightarrow> bool" where
  "in_canvas (DrawBox x y w h) =
     (0 \<le> x \<and> 0 \<le> y \<and> 0 \<le> w \<and> 0 \<le> h \<and> x + w \<le> canvas_width \<and> y + h \<le> canvas_height)"
| "in_canvas (DrawFrame x y w h) =
     (0 \<le> x \<and> 0 \<le> y \<and> 0 \<le> w \<and> 0 \<le> h \<and> x + w \<le> canvas_width \<and> y + h \<le> canvas_height)"
| "in_canvas (DrawStr x y s) = (0 \<le> x \<and> x < canvas_width \<and> 0 \<le> y \<and> y < canvas_height)"
| "in_canvas (SetFont f) = True"

text \<open>
  The rectangle of each segment of a digit drawn in the box at \<open>(x, y)\<close> of width \<open>w\<close>,
  height \<open>h\<close> and stroke \<open>t\<close>, as the description of the digit renderer gives it:
  horizontal segments of the full width and of thickness \<open>t\<close>, the middle one starting at
  \<open>y + h/2 - t/2\<close>; vertical segments of height \<open>h/2\<close>, the upper ones starting at \<open>y\<close>, the
  lower ones at \<open>y + h - h/2\<close>, the left ones at \<open>x\<close>, the right ones at \<open>x + w - t\<close>.
\<close>

fun seg_rect :: "int \<Rightarrow> int \<Rightarrow> int \<Rightarrow> int \<Rightarrow> int \<Rightarrow> segment \<Rightarrow> canvas_call" where
  "seg_rect x y w h t SegA = DrawBox x y w t"
| "seg_rect x y w h t SegG = DrawBox x (y + h sdiv 2 - t sdiv 2) w t"
| "seg_rect x y w h t SegD = DrawBox x (y + h - t) w t"
| "seg_rect x y w h t SegF = DrawBox x y t (h sdiv 2)"
| "seg_rect x y w h t SegB = DrawBox (x + w - t) y t (h sdiv 2)"
| "seg_rect x y w h t SegE = DrawBox x (y + h - h sdiv 2) t (h sdiv 2)"
| "seg_rect x y w h t SegC = DrawBox (x + w - t) (y + h - h sdiv 2) t (h sdiv 2)"

text \<open>The order in which \<^verbatim>\<open>segdigit\<close> tests the segments.\<close>

definition draw_order :: "segment list" where
  "draw_order = [SegA, SegG, SegD, SegF, SegB, SegE, SegC]"

text \<open>
  The first row of a box, the row after its last one, and the pixels a filled box covers.
\<close>

fun box_top :: "canvas_call \<Rightarrow> int" where
  "box_top (DrawBox x y w h) = y"
| "box_top _ = 0"

fun box_bottom :: "canvas_call \<Rightarrow> int" where
  "box_bottom (DrawBox x y w h) = y + h"
| "box_bottom _ = 0"

fun box_covers :: "canvas_call \<Rightarrow> int \<Rightarrow> int \<Rightarrow> bool" where
  "box_covers (DrawBox x y w h) px py = (x \<le> px \<and> px < x + w \<and> y \<le> py \<and> py < y + h)"
| "box_covers _ px py = False"

text \<open>
  Two filled boxes overlap when they share a pixel (lemma \<open>boxes_overlap_iff_shared_pixel\<close>).
  They meet when they share a column and no row lies between them: they touch or they
  overlap.
\<close>

fun boxes_overlap :: "canvas_call \<Rightarrow> canvas_call \<Rightarrow> bool" where
  "boxes_overlap (DrawBox x1 y1 w1 h1) (DrawBox x2 y2 w2 h2) =
     (0 < w1 \<and> 0 < w2 \<and> x1 < x2 + w2 \<and> x2 < x1 + w1
      \<and> 0 < h1 \<and> 0 < h2 \<and> y1 < y2 + h2 \<and> y2 < y1 + h1)"
| "boxes_overlap _ _ = False"

fun boxes_meet :: "canvas_call \<Rightarrow> canvas_call \<Rightarrow> bool" where
  "boxes_meet (DrawBox x1 y1 w1 h1) (DrawBox x2 y2 w2 h2) =
     (0 < w1 \<and> 0 < w2 \<and> x1 < x2 + w2 \<and> x2 < x1 + w1
      \<and> y1 \<le> y2 + h2 \<and> y2 \<le> y1 + h1)"
| "boxes_meet _ _ = False"

section \<open>Basic facts\<close>

lemma segmap_binary:
  "segmap = map (\<lambda>bs. horner_sum of_bool 2 (rev bs))
     [[False, True, True, True, True, True, True],
      [False, False, False, False, True, True, False],
      [True, False, True, True, False, True, True],
      [True, False, False, True, True, True, True],
      [True, True, False, False, True, True, False],
      [True, True, False, True, True, False, True],
      [True, True, True, True, True, False, True],
      [False, False, False, False, True, True, True],
      [True, True, True, True, True, True, True],
      [True, True, False, True, True, True, True]]"
  by (simp add: segmap_def)

lemma segmap_length: "length segmap = 10"
  by (simp add: segmap_def)


lemma sdiv_nonneg: "0 \<le> a \<Longrightarrow> 0 < b \<Longrightarrow> a sdiv b = a div (b::int)"
  by (simp add: signed_divide_int_def sgn_if)

lemma smod_nonneg: "0 \<le> a \<Longrightarrow> 0 < b \<Longrightarrow> a smod b = a mod (b::int)"
  by (simp add: signed_modulo_int_def sgn_if)

lemma seg_on_bit: "seg_on m k = bit m k"
  by (simp add: seg_on_def and_exp_eq_0_iff_not_bit)

lemma segmap_at_digit: "0 \<le> d \<Longrightarrow> d \<le> 9 \<Longrightarrow> segmap_at d = Some (segmap ! nat d)"
  by (simp add: segmap_at_def segmap_length)

lemma segdigit_calls:
  "segdigit c x y w h t d = Some (c\<lparr>calls := calls c @ digit_boxes x y w h t d\<rparr>)"
proof (cases "d < 0 \<or> d > 9")
  case True
  then show ?thesis by (simp add: segdigit_def digit_boxes_def)
next
  case False
  then have m: "segmap_at d = Some (segmap ! nat d)" by (simp add: segmap_at_digit)
  show ?thesis using False
    by (simp add: segdigit_def m digit_boxes_def segment_boxes_def Let_def canvas_draw_box_def)
qed

lemma draw_colon_calls:
  "draw_colon c x y t = c\<lparr>calls := calls c @ [DrawBox x (y + 16) t t, DrawBox x (y + 40) t t]\<rparr>"
  by (simp add: draw_colon_def canvas_draw_box_def)

lemma draw_cb_loop_calls:
  "draw_cb_loop c count i = c\<lparr>calls := calls c @ progress_frames i count\<rparr>"
proof (induction c count i rule: draw_cb_loop.induct)
  case (1 canvas count i)
  show ?case
  proof (cases "i < count")
    case True
    then have "[i..count - 1] = i # [i + 1..count - 1]" by (simp add: upto_rec1)
    with True 1 show ?thesis
      by (subst draw_cb_loop.simps) (simp add: progress_frames_def canvas_draw_frame_def Let_def)
  next
    case False
    then show ?thesis by (subst draw_cb_loop.simps) (simp add: progress_frames_def)
  qed
qed

lemmas layout_defs =
  y_c_def h_c_def t_c_def bar_area_w_def right_edge_def w_c_def gap_def colon_w_def
  colon_gap_def x0_def xH0_def xH1_def cx_def xM0_def xM1_def steps_def bar_w_def bar_h_def
  bar_gap_def bx_def by_c_def col_h_def ap_x_def ap_y0_def

lemma layout_values:
  "xH0 = 2" "xH1 = 28" "cx = 53" "xM0 = 61" "xM1 = 87" "right_edge = 114"
  "bx = 117" "ap_x = 115" "ap_y0 = 48" "col_h = 44"
  by (simp_all add: layout_defs signed_divide_int_def)

lemma draw_cb_digits_calls:
  "draw_cb_digits c xH0' xH1' cx' xM0' xM1' y h t w colon_w' right_edge' ht ho mt mo =
     Some (c\<lparr>calls := calls c @
       (if xM1' + w \<le> right_edge'
        then digit_row xH0' xH1' cx' xM0' xM1' y h t w colon_w' ht ho mt mo
        else [DrawBox 0 0 3 3])\<rparr>)"
  by (simp add: draw_cb_digits_def segdigit_calls draw_colon_calls digit_row_def
      canvas_draw_box_def)

lemma shipped_fit: "xM1 + w_c \<le> right_edge"
  by (simp add: layout_values w_c_def)

lemma draw_cb_calls:
  "draw_cb dt c = Some (c\<lparr>calls := calls c @ frame_calls dt, font := FontPrimary\<rparr>)"
  by (simp add: draw_cb_def draw_cb_digits_calls shipped_fit draw_cb_loop_calls Let_def
      canvas_set_font_def canvas_draw_str_def frame_calls_def clock_digits_def
      meridiem_calls_def)

lemma issued_append [simp]:
  "issued c (c\<lparr>calls := calls c @ xs\<rparr>) = xs"
  "issued c (c\<lparr>calls := calls c @ xs, font := f\<rparr>) = xs"
  by (simp_all add: issued_def)

lemma lt_10_cases: "d < 10 \<Longrightarrow> d \<in> {0, 1, 2, 3, 4, 5, 6, 7, 8, 9::nat}"
  by auto

lemma segmap_nth:
  "segmap ! 0 = 63" "segmap ! 1 = 6" "segmap ! 2 = 91" "segmap ! 3 = 79" "segmap ! 4 = 102"
  "segmap ! 5 = 109" "segmap ! 6 = 125" "segmap ! 7 = 7" "segmap ! 8 = 127" "segmap ! 9 = 111"
  by (simp_all add: segmap_def)

lemma canonical_masks:
  "mask_of (canonical_segments 0) = 63" "mask_of (canonical_segments 1) = 6"
  "mask_of (canonical_segments 2) = 91" "mask_of (canonical_segments 3) = 79"
  "mask_of (canonical_segments 4) = 102" "mask_of (canonical_segments 5) = 109"
  "mask_of (canonical_segments 6) = 125" "mask_of (canonical_segments 7) = 7"
  "mask_of (canonical_segments 8) = 127" "mask_of (canonical_segments 9) = 111"
  by (simp_all add: mask_of_def canonical_segments_def)

lemma lit_segments_table:
  "lit_segments 63 = canonical_segments 0" "lit_segments 6 = canonical_segments 1"
  "lit_segments 91 = canonical_segments 2" "lit_segments 79 = canonical_segments 3"
  "lit_segments 102 = canonical_segments 4" "lit_segments 109 = canonical_segments 5"
  "lit_segments 125 = canonical_segments 6" "lit_segments 7 = canonical_segments 7"
  "lit_segments 127 = canonical_segments 8" "lit_segments 111 = canonical_segments 9"
  by (simp_all add: lit_segments_def canonical_segments_def seg_on_bit bit_numeral_simps)

lemma draw_cb_H12_cases:
  assumes "0 \<le> H24" and "H24 \<le> 23"
  shows "draw_cb_H12 H24 = (if H24 = 0 then 12 else if H24 \<le> 12 then H24 else H24 - 12)"
proof -
  have m: "H24 smod 12 = H24 mod 12" using assms by (simp add: smod_nonneg)
  have "H24 mod 12 = 0 \<longleftrightarrow> H24 = 0 \<or> H24 = 12" using assms by presburger
  moreover have "12 < H24 \<longrightarrow> H24 mod 12 = H24 - 12" using assms by presburger
  moreover have "H24 < 12 \<longrightarrow> H24 mod 12 = H24" using assms by presburger
  ultimately show ?thesis unfolding draw_cb_H12_def Let_def m by auto
qed

lemma draw_cb_ht_cases:
  assumes "1 \<le> H12" and "H12 \<le> 12"
  shows "draw_cb_ht H12 = (if H12 \<le> 9 then - 1 else 1)"
    and "H12 sdiv 10 = (if H12 \<le> 9 then 0 else 1)"
proof -
  have d: "H12 sdiv 10 = H12 div 10" using assms by (simp add: sdiv_nonneg)
  have "H12 div 10 = (if H12 \<le> 9 then 0 else 1)" using assms by auto
  then show "H12 sdiv 10 = (if H12 \<le> 9 then 0 else 1)" using d by simp
  then show "draw_cb_ht H12 = (if H12 \<le> 9 then - 1 else 1)"
    by (simp add: draw_cb_ht_def Let_def)
qed

lemma segment_boxes_rects:
  "segment_boxes x y w h t m =
     map (seg_rect x y w h t) (filter (\<lambda>s. seg_on m (seg_bit s)) draw_order)"
  by (simp add: segment_boxes_def draw_order_def)

lemma digit_boxes_subset:
  "set (digit_boxes x y w h t d) \<subseteq> seg_rect x y w h t ` set draw_order"
  by (auto simp add: digit_boxes_def segment_boxes_rects)

lemma digit_boxes_all:
  assumes "\<And>s. P (seg_rect x y w h t s)"
  shows "\<forall>call\<in>set (digit_boxes x y w h t d). P call"
  using digit_boxes_subset [of x y w h t d] assms by auto

lemma is_box_seg_rect [simp]: "is_box (seg_rect x y w h t s)"
  by (cases s) simp_all

lemma digit_boxes_filter:
  "filter is_box (digit_boxes x y w h t d) = digit_boxes x y w h t d"
  "filter is_frame (digit_boxes x y w h t d) = []"
  "filter is_str (digit_boxes x y w h t d) = []"
  "filter is_font (digit_boxes x y w h t d) = []"
proof -
  have b: "\<forall>call\<in>set (digit_boxes x y w h t d). is_box call"
    by (rule digit_boxes_all) simp
  then show "filter is_box (digit_boxes x y w h t d) = digit_boxes x y w h t d"
    by (simp add: filter_id_conv)
  have n: "is_box call \<Longrightarrow> \<not> is_frame call \<and> \<not> is_str call \<and> \<not> is_font call" for call
    by (cases call) simp_all
  from b n show "filter is_frame (digit_boxes x y w h t d) = []"
    "filter is_str (digit_boxes x y w h t d) = []"
    "filter is_font (digit_boxes x y w h t d) = []"
    by (auto simp add: filter_empty_conv)
qed

lemma clock_digits_filter:
  "filter is_box (clock_digits dt) = clock_digits dt"
  "filter is_frame (clock_digits dt) = []"
  "filter is_str (clock_digits dt) = []"
  "filter is_font (clock_digits dt) = []"
  by (simp_all add: clock_digits_def digit_row_def digit_boxes_filter)

lemma progress_frames_filter:
  "filter is_box (progress_frames i n) = []"
  "filter is_frame (progress_frames i n) = progress_frames i n"
  "filter is_str (progress_frames i n) = []"
  "filter is_font (progress_frames i n) = []"
  by (simp_all add: progress_frames_def filter_map o_def)

lemma meridiem_calls_filter:
  "filter is_box (meridiem_calls H) = []"
  "filter is_frame (meridiem_calls H) = []"
  "filter is_str (meridiem_calls H) =
     [if 12 \<le> H then DrawStr ap_x (ap_y0 + 15) ''PM'' else DrawStr ap_x (ap_y0 + 7) ''AM'']"
  "filter is_font (meridiem_calls H) = [SetFont FontKeyboard, SetFont FontPrimary]"
  by (simp_all add: meridiem_calls_def)

lemma draw_cb_count_le: "draw_cb_count sec \<le> 5"
  by (simp add: draw_cb_count_def Let_def steps_def)

lemma draw_cb_count_in_range:
  assumes "0 \<le> sec" and "sec \<le> 59"
  shows "draw_cb_count sec = sec sdiv 10" and "0 \<le> sec sdiv 10"
proof -
  have d: "sec sdiv 10 = sec div 10" using assms by (simp add: sdiv_nonneg)
  have "sec div 10 \<le> 5" using assms by presburger
  then show "draw_cb_count sec = sec sdiv 10"
    by (simp add: draw_cb_count_def Let_def steps_def d)
  show "0 \<le> sec sdiv 10" using assms d by simp
qed

lemma length_progress_frames: "length (progress_frames 0 n) = nat n"
  by (simp add: progress_frames_def)

lemma marker_not_in_digits:
  assumes "0 < x" and "t \<le> w"
  shows "DrawBox 0 0 3 3 \<notin> set (digit_boxes x y w h t d)"
proof -
  have "\<forall>call\<in>set (digit_boxes x y w h t d). call \<noteq> DrawBox 0 0 3 3"
  proof (rule digit_boxes_all)
    fix s show "seg_rect x y w h t s \<noteq> DrawBox 0 0 3 3"
      using assms by (cases s) auto
  qed
  then show ?thesis by blast
qed

lemma digit_boxes_in_canvas:
  assumes "0 \<le> x" and "x + 23 \<le> 128"
  shows "\<forall>call\<in>set (digit_boxes x 2 23 60 7 d). in_canvas call"
proof (rule digit_boxes_all)
  fix s show "in_canvas (seg_rect x 2 23 60 7 s)"
    using assms
    by (cases s) (simp_all add: canvas_width_def canvas_height_def signed_divide_int_def)
qed

lemma clock_digits_in_canvas: "\<forall>call\<in>set (clock_digits dt). in_canvas call"
proof -
  have "\<forall>call\<in>set (digit_boxes 2 2 23 60 7 d). in_canvas call"
    "\<forall>call\<in>set (digit_boxes 28 2 23 60 7 d). in_canvas call"
    "\<forall>call\<in>set (digit_boxes 61 2 23 60 7 d). in_canvas call"
    "\<forall>call\<in>set (digit_boxes 87 2 23 60 7 d). in_canvas call" for d
    by (rule digit_boxes_in_canvas; simp)+
  then show ?thesis
    by (simp add: clock_digits_def digit_row_def layout_values y_c_def h_c_def t_c_def w_c_def
        colon_w_def ball_Un canvas_width_def canvas_height_def)
qed

lemma progress_frames_in_canvas:
  assumes "n \<le> 5"
  shows "\<forall>call\<in>set (progress_frames 0 n). in_canvas call"
  using assms
  by (auto simp add: progress_frames_def layout_values by_c_def bar_h_def bar_gap_def bar_w_def
      canvas_width_def canvas_height_def)

lemma meridiem_calls_in_canvas: "\<forall>call\<in>set (meridiem_calls H). in_canvas call"
  by (simp add: meridiem_calls_def layout_values canvas_width_def canvas_height_def)

lemma is_str_not_font: "is_str call \<Longrightarrow> \<not> is_font call"
  by (cases call) simp_all

lemma segdigit_rects:
  assumes "0 \<le> d" and "d \<le> 9"
  shows "\<exists>m c'. segmap_at d = Some m \<and> segdigit c x y w h t d = Some c'
           \<and> issued c c' =
               map (seg_rect x y w h t) (filter (\<lambda>s. seg_on m (seg_bit s)) draw_order)"
  using assms
  by (simp add: segmap_at_digit segdigit_calls digit_boxes_def segment_boxes_rects)

lemma boxes_overlap_iff_shared_pixel:
  "boxes_overlap (DrawBox x1 y1 w1 h1) (DrawBox x2 y2 w2 h2) \<longleftrightarrow>
     (\<exists>px py. box_covers (DrawBox x1 y1 w1 h1) px py \<and> box_covers (DrawBox x2 y2 w2 h2) px py)"
proof
  assume a: "boxes_overlap (DrawBox x1 y1 w1 h1) (DrawBox x2 y2 w2 h2)"
  then have "box_covers (DrawBox x1 y1 w1 h1) (max x1 x2) (max y1 y2)
      \<and> box_covers (DrawBox x2 y2 w2 h2) (max x1 x2) (max y1 y2)"
    by auto
  then show "\<exists>px py. box_covers (DrawBox x1 y1 w1 h1) px py
      \<and> box_covers (DrawBox x2 y2 w2 h2) px py"
    by blast
next
  assume "\<exists>px py. box_covers (DrawBox x1 y1 w1 h1) px py
      \<and> box_covers (DrawBox x2 y2 w2 h2) px py"
  then show "boxes_overlap (DrawBox x1 y1 w1 h1) (DrawBox x2 y2 w2 h2)"
    by auto
qed

lemma lit_rect_issued:
  assumes "s \<in> set draw_order" and "seg_on m (seg_bit s)"
  shows "seg_rect x y w h t s
           \<in> set (map (seg_rect x y w h t) (filter (\<lambda>s. seg_on m (seg_bit s)) draw_order))"
  using assms by simp

lemma upper_overlap:
  assumes "0 \<le> h" and "0 \<le> t" and "0 \<le> w" and "up \<in> {SegF, SegB}"
  shows "boxes_overlap (seg_rect x y w h t up) (seg_rect x y w h t SegG)
           \<longleftrightarrow> 2 \<le> h \<and> 2 \<le> t \<and> 1 \<le> w"
proof -
  have d: "h sdiv 2 = h div 2" "t sdiv 2 = t div 2" using assms by (simp_all add: sdiv_nonneg)
  have "0 < h div 2 \<longleftrightarrow> 2 \<le> h" "0 < t div 2 \<longleftrightarrow> 2 \<le> t" "t div 2 \<le> t" "h div 2 \<le> h"
    using assms by presburger+
  then show ?thesis using assms(3,4) by (auto simp add: d)
qed

lemma lower_overlap:
  assumes "0 \<le> h" and "0 \<le> t" and "0 \<le> w" and "lo \<in> {SegE, SegC}"
  shows "boxes_overlap (seg_rect x y w h t lo) (seg_rect x y w h t SegG)
           \<longleftrightarrow> 2 \<le> h \<and> 1 \<le> w \<and> (if even h then 1 \<le> t else 3 \<le> t)"
proof -
  have d: "h sdiv 2 = h div 2" "t sdiv 2 = t div 2" using assms by (simp_all add: sdiv_nonneg)
  have 1: "0 < h div 2 \<longleftrightarrow> 2 \<le> h" using assms by presburger
  have e: "even h \<Longrightarrow> h - h div 2 < h div 2 - t div 2 + t \<longleftrightarrow> 1 \<le> t"
    using assms by presburger
  have o: "odd h \<Longrightarrow> h - h div 2 < h div 2 - t div 2 + t \<longleftrightarrow> 3 \<le> t"
    using assms by presburger
  have 2: "h - h div 2 < h div 2 - t div 2 + t \<longleftrightarrow> (if even h then 1 \<le> t else 3 \<le> t)"
    using e o by simp
  have 3: "2 \<le> h \<Longrightarrow> h div 2 - t div 2 < h" using assms by presburger
  have 4: "(if even h then 1 \<le> t else 3 \<le> t) \<Longrightarrow> 0 < t" by (simp split: if_splits)
  show ?thesis using assms(3,4) 1 2 3 4 by (auto simp add: d)
qed

lemma vertical_meets_bar:
  assumes "0 \<le> h" and "1 \<le> t" and "1 \<le> w" and "v \<in> {SegF, SegB, SegE, SegC}"
  shows "boxes_meet (seg_rect x y w h t v) (seg_rect x y w h t SegG)"
proof -
  have d: "h sdiv 2 = h div 2" "t sdiv 2 = t div 2" using assms by (simp_all add: sdiv_nonneg)
  have "0 \<le> h div 2" "0 \<le> t div 2" "t div 2 \<le> t" "h div 2 \<le> h"
    "h - h div 2 \<le> h div 2 - t div 2 + t"
    using assms by presburger+
  then show ?thesis using assms(2,3,4) by (auto simp add: d)
qed

section \<open>The claims\<close>

subsection \<open>C1: the segment table\<close>

text \<open>
  Claim C1. For every digit \<open>d\<close> from 0 to 9, the entry \<^verbatim>\<open>segmap[d]\<close> is the canonical
  seven-segment pattern of \<open>d\<close>: reading the table at \<open>d\<close> succeeds and gives exactly the
  mask of the canonical segments (no other bit is set), and the segments the digit
  renderer finds lit in it are the canonical ones. In particular the entry for 0 lights
  every segment but the middle one, the entry for 1 lights only the upper-right and the
  lower-right segment, and the entry for 8 lights all seven.
\<close>

theorem segmap_canonical:
  assumes "d < 10"
  shows "segmap_at (int d) = Some (mask_of (canonical_segments d))
       \<and> lit_segments (segmap ! d) = canonical_segments d
       \<and> lit_segments (segmap ! 0) = [SegA, SegB, SegC, SegD, SegE, SegF]
       \<and> lit_segments (segmap ! 1) = [SegB, SegC]
       \<and> lit_segments (segmap ! 8) = [SegA, SegB, SegC, SegD, SegE, SegF, SegG]"
proof -
  have tbl: "segmap ! d = mask_of (canonical_segments d)
           \<and> lit_segments (segmap ! d) = canonical_segments d"
    using lt_10_cases [OF assms]
    by (auto simp del: One_nat_def simp: segmap_nth canonical_masks lit_segments_table)
  have at: "segmap_at (int d) = Some (mask_of (canonical_segments d))"
    using assms tbl by (simp add: segmap_at_def segmap_length)
  have spot: "lit_segments (segmap ! 0) = [SegA, SegB, SegC, SegD, SegE, SegF]"
    "lit_segments (segmap ! 1) = [SegB, SegC]"
    "lit_segments (segmap ! 8) = [SegA, SegB, SegC, SegD, SegE, SegF, SegG]"
    by (simp_all del: One_nat_def add: segmap_nth lit_segments_table canonical_segments_def)
  from tbl at spot show ?thesis by blast
qed

theorem segmap_canonical_witness:
  "(4::nat) < 10 \<and> segmap_at 4 = Some 102 \<and> lit_segments (segmap ! 4) = [SegB, SegC, SegF, SegG]"
  using segmap_canonical [of 4] by (simp add: mask_of_def canonical_segments_def)

subsection \<open>C2: the 12-hour value\<close>

text \<open>
  Claim C2. For every 24-hour value from 0 to 23, the displayed 12-hour value is 12 when
  the hour is 0 or 12, and the hour modulo 12 otherwise (C's \<^verbatim>\<open>%\<close>, which is \<open>smod\<close>).
  The witness evaluates the hours 0, 12, 13 and 23: they display 12, 12, 1 and 11.
\<close>

theorem hour12_conversion:
  assumes "0 \<le> H24" and "H24 \<le> 23"
  shows "draw_cb_H12 H24 = (if H24 = 0 \<or> H24 = 12 then 12 else H24 smod 12)"
proof -
  have m: "H24 smod 12 = H24 mod 12" using assms by (simp add: smod_nonneg)
  have "12 < H24 \<longrightarrow> H24 mod 12 = H24 - 12" using assms by presburger
  moreover have "H24 < 12 \<longrightarrow> H24 mod 12 = H24" using assms by presburger
  ultimately show ?thesis unfolding m using draw_cb_H12_cases [OF assms] by auto
qed

theorem hour12_conversion_witness:
  "(0::int) \<le> 13 \<and> (13::int) \<le> 23 \<and> draw_cb_H12 0 = 12 \<and> draw_cb_H12 12 = 12
   \<and> draw_cb_H12 13 = 1 \<and> draw_cb_H12 23 = 11"
  using hour12_conversion [of 13] hour12_conversion [of 0] hour12_conversion [of 12]
    hour12_conversion [of 23]
  by (simp add: signed_modulo_int_def)

subsection \<open>C3: the hour-tens digit\<close>

text \<open>
  Claim C3. For every 24-hour value from 0 to 23, the hour-tens digit handed to the digit
  renderer is the blank sentinel \<open>-1\<close> exactly when the 12-hour value is from 1 to 9, that
  is exactly when \<^verbatim>\<open>H12 / 10\<close> is 0, and it is the digit 1 exactly when the 12-hour
  value is 10, 11 or 12. In terms of the 24-hour value: blank for 1..9 and 13..21, the
  digit 1 for 0, 10, 11, 12, 22 and 23.
\<close>

theorem hour_tens_blanking:
  assumes "0 \<le> H24" and "H24 \<le> 23"
  shows "(draw_cb_ht (draw_cb_H12 H24) = - 1
            \<longleftrightarrow> 1 \<le> draw_cb_H12 H24 \<and> draw_cb_H12 H24 \<le> 9)
       \<and> (draw_cb_ht (draw_cb_H12 H24) = - 1 \<longleftrightarrow> draw_cb_H12 H24 sdiv 10 = 0)
       \<and> (draw_cb_ht (draw_cb_H12 H24) = 1 \<longleftrightarrow> draw_cb_H12 H24 \<in> {10, 11, 12})
       \<and> (draw_cb_ht (draw_cb_H12 H24) = - 1 \<longleftrightarrow> H24 \<in> {1..9} \<union> {13..21})
       \<and> (draw_cb_ht (draw_cb_H12 H24) = 1 \<longleftrightarrow> H24 \<in> {0, 10, 11, 12, 22, 23})"
proof -
  define H12 where "H12 = draw_cb_H12 H24"
  have c: "H12 = (if H24 = 0 then 12 else if H24 \<le> 12 then H24 else H24 - 12)"
    unfolding H12_def by (rule draw_cb_H12_cases [OF assms])
  have r: "1 \<le> H12" "H12 \<le> 12" using c assms by (auto split: if_splits)
  note t = draw_cb_ht_cases [OF r]
  have 1: "draw_cb_ht H12 = - 1 \<longleftrightarrow> 1 \<le> H12 \<and> H12 \<le> 9" using t r by simp
  have 2: "draw_cb_ht H12 = - 1 \<longleftrightarrow> H12 sdiv 10 = 0" using t by simp
  have 3: "draw_cb_ht H12 = 1 \<longleftrightarrow> H12 \<in> {10, 11, 12}" using t r by auto
  have 4: "draw_cb_ht H12 = - 1 \<longleftrightarrow> H24 \<in> {1..9} \<union> {13..21}"
    using t(1) c assms by (auto split: if_splits)
  have 5: "draw_cb_ht H12 = 1 \<longleftrightarrow> H24 \<in> {0, 10, 11, 12, 22, 23}"
    using t(1) c assms by (auto split: if_splits)
  from 1 2 3 4 5 show ?thesis unfolding H12_def by blast
qed

theorem hour_tens_blanking_witness:
  "(0::int) \<le> 9 \<and> (9::int) \<le> 23 \<and> draw_cb_ht (draw_cb_H12 9) = - 1
   \<and> draw_cb_ht (draw_cb_H12 22) = 1 \<and> draw_cb_ht (draw_cb_H12 0) = 1"
  using hour_tens_blanking [of 9] hour_tens_blanking [of 22] hour_tens_blanking [of 0]
  by simp

subsection \<open>C4: the progress column\<close>

text \<open>
  Claim C4. The callback always returns, and for every second from 0 to 59 the frames it
  draws are exactly \<^verbatim>\<open>second / 10\<close> outlined rectangles (truncating division), all of
  one size and in one column, the \<open>k\<close>-th one \<open>k\<close> times the cell height plus the gap
  below the first. Whatever the second, also out of range, at most 5 frames are drawn.
  The witness evaluates the seconds 0, 9, 10, 37 and 59 (0, 0, 1, 3 and 5 frames) and the
  out-of-range second 255.
\<close>

theorem progress_column:
  "\<exists>c'. draw_cb dt c = Some c'
     \<and> (0 \<le> second dt \<and> second dt \<le> 59 \<longrightarrow>
          filter is_frame (issued c c') =
            map (\<lambda>k. DrawFrame bx (by_c + k * (bar_h + bar_gap)) bar_w bar_h)
              [0..second dt sdiv 10 - 1]
        \<and> int (length (filter is_frame (issued c c'))) = second dt sdiv 10)
     \<and> length (filter is_frame (issued c c')) \<le> 5"
proof -
  let ?c' = "c\<lparr>calls := calls c @ frame_calls dt, font := FontPrimary\<rparr>"
  have f: "filter is_frame (issued c ?c') = progress_frames 0 (draw_cb_count (second dt))"
    by (simp add: frame_calls_def clock_digits_filter progress_frames_filter
        meridiem_calls_filter)
  have le: "length (filter is_frame (issued c ?c')) \<le> 5"
    unfolding f length_progress_frames using draw_cb_count_le [of "second dt"] by simp
  have r: "filter is_frame (issued c ?c') =
            map (\<lambda>k. DrawFrame bx (by_c + k * (bar_h + bar_gap)) bar_w bar_h)
              [0..second dt sdiv 10 - 1]
        \<and> int (length (filter is_frame (issued c ?c'))) = second dt sdiv 10"
    if "0 \<le> second dt \<and> second dt \<le> 59"
    unfolding f length_progress_frames using draw_cb_count_in_range [of "second dt"] that
    by (simp add: progress_frames_def)
  from le r show ?thesis unfolding draw_cb_calls by blast
qed

theorem progress_column_witness:
  "(0::int) \<le> 37 \<and> (37::int) \<le> 59
   \<and> (\<exists>c'. draw_cb \<lparr>hour = 9, minute = 5, second = 37\<rparr> \<lparr>calls = [], font = FontSecondary\<rparr>
           = Some c'
      \<and> filter is_frame (issued \<lparr>calls = [], font = FontSecondary\<rparr> c')
          = [DrawFrame 117 2 6 8, DrawFrame 117 11 6 8, DrawFrame 117 20 6 8])
   \<and> (\<exists>c'. draw_cb \<lparr>hour = 9, minute = 5, second = 0\<rparr> \<lparr>calls = [], font = FontSecondary\<rparr>
           = Some c'
      \<and> filter is_frame (issued \<lparr>calls = [], font = FontSecondary\<rparr> c') = [])
   \<and> (\<exists>c'. draw_cb \<lparr>hour = 9, minute = 5, second = 9\<rparr> \<lparr>calls = [], font = FontSecondary\<rparr>
           = Some c'
      \<and> filter is_frame (issued \<lparr>calls = [], font = FontSecondary\<rparr> c') = [])
   \<and> (\<exists>c'. draw_cb \<lparr>hour = 9, minute = 5, second = 10\<rparr> \<lparr>calls = [], font = FontSecondary\<rparr>
           = Some c'
      \<and> filter is_frame (issued \<lparr>calls = [], font = FontSecondary\<rparr> c')
          = [DrawFrame 117 2 6 8])
   \<and> (\<exists>c'. draw_cb \<lparr>hour = 9, minute = 5, second = 59\<rparr> \<lparr>calls = [], font = FontSecondary\<rparr>
           = Some c'
      \<and> filter is_frame (issued \<lparr>calls = [], font = FontSecondary\<rparr> c')
          = [DrawFrame 117 2 6 8, DrawFrame 117 11 6 8, DrawFrame 117 20 6 8,
             DrawFrame 117 29 6 8, DrawFrame 117 38 6 8])
   \<and> (\<exists>c'. draw_cb \<lparr>hour = 9, minute = 5, second = 255\<rparr> \<lparr>calls = [], font = FontSecondary\<rparr>
           = Some c'
      \<and> length (filter is_frame (issued \<lparr>calls = [], font = FontSecondary\<rparr> c')) \<le> 5)"
  using progress_column [of "\<lparr>hour = 9, minute = 5, second = 37\<rparr>"
      "\<lparr>calls = [], font = FontSecondary\<rparr>"]
    progress_column [of "\<lparr>hour = 9, minute = 5, second = 0\<rparr>"
      "\<lparr>calls = [], font = FontSecondary\<rparr>"]
    progress_column [of "\<lparr>hour = 9, minute = 5, second = 9\<rparr>"
      "\<lparr>calls = [], font = FontSecondary\<rparr>"]
    progress_column [of "\<lparr>hour = 9, minute = 5, second = 10\<rparr>"
      "\<lparr>calls = [], font = FontSecondary\<rparr>"]
    progress_column [of "\<lparr>hour = 9, minute = 5, second = 59\<rparr>"
      "\<lparr>calls = [], font = FontSecondary\<rparr>"]
    progress_column [of "\<lparr>hour = 9, minute = 5, second = 255\<rparr>"
      "\<lparr>calls = [], font = FontSecondary\<rparr>"]
  by (auto simp add: layout_values bar_w_def bar_h_def bar_gap_def by_c_def
      signed_divide_int_def upto_rec1)

subsection \<open>C5: the meridiem label\<close>

text \<open>
  Claim C5. In every frame exactly one text is drawn: \<^verbatim>\<open>"PM"\<close> when the 24-hour value
  is at least 12, and \<^verbatim>\<open>"AM"\<close> otherwise, never both and never neither; the two labels
  have two different fixed positions. The witness evaluates the hours 0 and 11 (AM) and
  12 and 23 (PM).
\<close>

theorem meridiem_exclusive:
  "\<exists>c'. draw_cb dt c = Some c'
     \<and> filter is_str (issued c c') =
         [if hour dt \<ge> 12 then DrawStr ap_x (ap_y0 + 15) ''PM''
          else DrawStr ap_x (ap_y0 + 7) ''AM'']
     \<and> (ap_x, ap_y0 + 7) \<noteq> (ap_x, ap_y0 + 15)"
  unfolding draw_cb_calls
  by (simp add: frame_calls_def clock_digits_filter progress_frames_filter
      meridiem_calls_filter)

theorem meridiem_exclusive_witness:
  "(\<exists>c'. draw_cb \<lparr>hour = 0, minute = 0, second = 0\<rparr> \<lparr>calls = [], font = FontSecondary\<rparr>
           = Some c'
      \<and> filter is_str (issued \<lparr>calls = [], font = FontSecondary\<rparr> c')
          = [DrawStr 115 55 ''AM''])
   \<and> (\<exists>c'. draw_cb \<lparr>hour = 11, minute = 59, second = 59\<rparr> \<lparr>calls = [], font = FontSecondary\<rparr>
           = Some c'
      \<and> filter is_str (issued \<lparr>calls = [], font = FontSecondary\<rparr> c')
          = [DrawStr 115 55 ''AM''])
   \<and> (\<exists>c'. draw_cb \<lparr>hour = 12, minute = 0, second = 0\<rparr> \<lparr>calls = [], font = FontSecondary\<rparr>
           = Some c'
      \<and> filter is_str (issued \<lparr>calls = [], font = FontSecondary\<rparr> c')
          = [DrawStr 115 63 ''PM''])
   \<and> (\<exists>c'. draw_cb \<lparr>hour = 23, minute = 59, second = 59\<rparr> \<lparr>calls = [], font = FontSecondary\<rparr>
           = Some c'
      \<and> filter is_str (issued \<lparr>calls = [], font = FontSecondary\<rparr> c')
          = [DrawStr 115 63 ''PM''])"
  using meridiem_exclusive [of "\<lparr>hour = 0, minute = 0, second = 0\<rparr>"
      "\<lparr>calls = [], font = FontSecondary\<rparr>"]
    meridiem_exclusive [of "\<lparr>hour = 11, minute = 59, second = 59\<rparr>"
      "\<lparr>calls = [], font = FontSecondary\<rparr>"]
    meridiem_exclusive [of "\<lparr>hour = 12, minute = 0, second = 0\<rparr>"
      "\<lparr>calls = [], font = FontSecondary\<rparr>"]
    meridiem_exclusive [of "\<lparr>hour = 23, minute = 59, second = 59\<rparr>"
      "\<lparr>calls = [], font = FontSecondary\<rparr>"]
  by (auto simp add: layout_values)

subsection \<open>C6: the layout fit check\<close>

text \<open>
  Claim C6. If the fit check fails, that is if the right edge \<open>xM1 + w\<close> of the
  minute-ones box passes the left edge of the gutter, then no digit box and no colon is
  drawn: the only call is a filled 3 by 3 box at the origin of the canvas. With the
  shipped constants the right edge of the minute-ones box lies strictly left of the
  gutter, so the callback takes the digit path: the boxes of a frame are those of the
  four digits and the colon, and the marker is not among its calls.
\<close>

theorem layout_fit_check:
  "(right_edge' < xM1' + w \<longrightarrow>
      (\<exists>c'. draw_cb_digits c xH0' xH1' cx' xM0' xM1' y h t w colon_w' right_edge' ht ho mt mo
               = Some c'
         \<and> issued c c' = [DrawBox 0 0 3 3]))
   \<and> xM1 + w_c < right_edge
   \<and> (\<exists>c'. draw_cb dt c = Some c'
         \<and> filter is_box (issued c c') =
             digit_boxes xH0 y_c w_c h_c t_c (draw_cb_ht (draw_cb_H12 (hour dt)))
           @ digit_boxes xH1 y_c w_c h_c t_c (draw_cb_H12 (hour dt) smod 10)
           @ [DrawBox cx (y_c + 16) colon_w colon_w, DrawBox cx (y_c + 40) colon_w colon_w]
           @ digit_boxes xM0 y_c w_c h_c t_c (minute dt sdiv 10)
           @ digit_boxes xM1 y_c w_c h_c t_c (minute dt smod 10)
         \<and> DrawBox 0 0 3 3 \<notin> set (issued c c'))"
proof -
  have a: "right_edge' < xM1' + w \<longrightarrow>
      (\<exists>c'. draw_cb_digits c xH0' xH1' cx' xM0' xM1' y h t w colon_w' right_edge' ht ho mt mo
               = Some c'
         \<and> issued c c' = [DrawBox 0 0 3 3])"
    by (simp add: draw_cb_digits_calls)
  have b: "xM1 + w_c < right_edge" by (simp add: layout_values w_c_def)
  have m: "DrawBox 0 0 3 3 \<notin> set (clock_digits dt)"
    by (simp add: clock_digits_def digit_row_def marker_not_in_digits layout_values
        t_c_def w_c_def)
  have n: "DrawBox 0 0 3 3 \<notin> set (progress_frames 0 k)" for k
    by (auto simp add: progress_frames_def)
  have c: "\<exists>c'. draw_cb dt c = Some c'
         \<and> filter is_box (issued c c') = clock_digits dt
         \<and> DrawBox 0 0 3 3 \<notin> set (issued c c')"
    unfolding draw_cb_calls
    using m n by (simp add: frame_calls_def clock_digits_filter progress_frames_filter
        meridiem_calls_filter meridiem_calls_def)
  from a b c show ?thesis unfolding clock_digits_def digit_row_def by blast
qed

theorem layout_fit_check_witness:
  "(86::int) < 87 + 23
   \<and> (\<exists>c'. draw_cb_digits \<lparr>calls = [], font = FontSecondary\<rparr> 2 28 53 61 87 2 60 7 23 6 86
              (- 1) 9 0 5 = Some c'
         \<and> issued \<lparr>calls = [], font = FontSecondary\<rparr> c' = [DrawBox 0 0 3 3])
   \<and> (\<exists>c'. draw_cb \<lparr>hour = 9, minute = 5, second = 37\<rparr> \<lparr>calls = [], font = FontSecondary\<rparr>
              = Some c'
         \<and> DrawBox 0 0 3 3 \<notin> set (issued \<lparr>calls = [], font = FontSecondary\<rparr> c'))"
  using layout_fit_check [where right_edge' = 86 and xM1' = 87 and w = 23
      and c = "\<lparr>calls = [], font = FontSecondary\<rparr>" and xH0' = 2 and xH1' = 28 and cx' = 53
      and xM0' = 61 and y = 2 and h = 60 and t = 7 and colon_w' = 6 and ht = "- 1" and ho = 9
      and mt = 0 and mo = 5 and dt = "\<lparr>hour = 9, minute = 5, second = 37\<rparr>"]
  by auto

subsection \<open>C7: the geometry of a digit\<close>

text \<open>
  Claim C7 says of a lit digit that each vertical segment meets the middle bar without
  gap or overlap. The code draws them overlapping. For the digit 4 in the hour-ones box of
  the shipped layout (\<open>x = 28\<close>, \<open>y = 2\<close>, \<open>w = 23\<close>, \<open>h = 60\<close>, \<open>t = 7\<close>) the upper-left
  segment is the box of rows 2 to 31 and the middle bar the box of rows 29 to 35: the
  bar starts above the row at which the segment ends, and the pixel \<open>(28, 29)\<close> lies in
  both.
\<close>

theorem vertical_segment_overlaps_bar:
  "segdigit \<lparr>calls = [], font = FontPrimary\<rparr> 28 2 23 60 7 4
     = Some \<lparr>calls = [DrawBox 28 29 23 7, DrawBox 28 2 7 30, DrawBox 44 2 7 30,
                       DrawBox 44 32 7 30], font = FontPrimary\<rparr>
   \<and> box_top (DrawBox 28 29 23 7) < box_bottom (DrawBox 28 2 7 30)
   \<and> box_covers (DrawBox 28 2 7 30) 28 29
   \<and> box_covers (DrawBox 28 29 23 7) 28 29"
  by (simp add: segdigit_def segmap_at_def segmap_def seg_on_bit canvas_draw_box_def
      signed_divide_int_def Let_def)

text \<open>
  Claim C7, amended. For every lit digit drawn in a box at \<open>(x, y)\<close> with width \<open>w\<close>,
  height \<open>h\<close> and stroke \<open>t\<close>, the boxes drawn are the rectangles \<open>seg_rect\<close> of the lit
  segments. Each horizontal segment spans the full width \<open>w\<close> with thickness \<open>t\<close>, the
  middle segment starting at \<open>y + h/2 - t/2\<close> so it bisects the box: the row \<open>t/2\<close> of the
  bar is the row \<open>h/2\<close> of the box. Each vertical segment spans exactly half the element
  height: upper segments start at \<open>y\<close> with height \<open>h/2\<close>, lower segments start at
  \<open>y + h - h/2\<close> with height \<open>h/2\<close>. Left-column vertical segments start at \<open>x\<close> and
  right-column ones at \<open>x + w - t\<close>. Whenever a vertical segment and the middle bar are
  both lit, both boxes are among the calls, and for \<open>h \<ge> 0\<close>, \<open>t \<ge> 1\<close> and \<open>w \<ge> 1\<close> the
  segment meets the bar without gap. They do not meet without overlap. For sizes that
  are not negative, an upper segment and the bar overlap exactly when \<open>h \<ge> 2\<close>, \<open>t \<ge> 2\<close>
  and \<open>w \<ge> 1\<close>; a lower segment and the bar overlap exactly when \<open>h \<ge> 2\<close>, \<open>w \<ge> 1\<close> and
  \<open>t \<ge> 1\<close> for an even \<open>h\<close>, \<open>t \<ge> 3\<close> for an odd one.
\<close>

theorem segdigit_geometry:
  assumes "0 \<le> d" and "d \<le> 9"
  shows "\<exists>m c'. segmap_at d = Some m \<and> segdigit c x y w h t d = Some c'
       \<and> issued c c' =
           map (seg_rect x y w h t) (filter (\<lambda>s. seg_on m (seg_bit s)) draw_order)
       \<and> seg_rect x y w h t SegA = DrawBox x y w t
       \<and> seg_rect x y w h t SegG = DrawBox x (y + h sdiv 2 - t sdiv 2) w t
       \<and> seg_rect x y w h t SegD = DrawBox x (y + h - t) w t
       \<and> seg_rect x y w h t SegF = DrawBox x y t (h sdiv 2)
       \<and> seg_rect x y w h t SegB = DrawBox (x + w - t) y t (h sdiv 2)
       \<and> seg_rect x y w h t SegE = DrawBox x (y + h - h sdiv 2) t (h sdiv 2)
       \<and> seg_rect x y w h t SegC = DrawBox (x + w - t) (y + h - h sdiv 2) t (h sdiv 2)
       \<and> box_top (seg_rect x y w h t SegG) + t sdiv 2 = y + h sdiv 2
       \<and> (\<forall>v\<in>{SegF, SegB, SegE, SegC}.
            seg_on m (seg_bit v) \<and> seg_on m (seg_bit SegG) \<longrightarrow>
              seg_rect x y w h t v \<in> set (issued c c')
            \<and> seg_rect x y w h t SegG \<in> set (issued c c')
            \<and> (0 \<le> h \<and> 1 \<le> t \<and> 1 \<le> w \<longrightarrow>
                 boxes_meet (seg_rect x y w h t v) (seg_rect x y w h t SegG)))
       \<and> (\<forall>up\<in>{SegF, SegB}. 0 \<le> h \<and> 0 \<le> t \<and> 0 \<le> w \<longrightarrow>
            (boxes_overlap (seg_rect x y w h t up) (seg_rect x y w h t SegG)
               \<longleftrightarrow> 2 \<le> h \<and> 2 \<le> t \<and> 1 \<le> w))
       \<and> (\<forall>lo\<in>{SegE, SegC}. 0 \<le> h \<and> 0 \<le> t \<and> 0 \<le> w \<longrightarrow>
            (boxes_overlap (seg_rect x y w h t lo) (seg_rect x y w h t SegG)
               \<longleftrightarrow> 2 \<le> h \<and> 1 \<le> w \<and> (if even h then 1 \<le> t else 3 \<le> t)))"
proof -
  from segdigit_rects [OF assms, of c x y w h t]
  obtain m c' where m: "segmap_at d = Some m" and s: "segdigit c x y w h t d = Some c'"
    and i: "issued c c' =
      map (seg_rect x y w h t) (filter (\<lambda>s. seg_on m (seg_bit s)) draw_order)"
    by blast
  have mem: "seg_rect x y w h t v \<in> set (issued c c')"
    if lit: "seg_on m (seg_bit v)" for v
  proof -
    have "v \<in> set draw_order" by (cases v) (simp_all add: draw_order_def)
    then show ?thesis unfolding i using lit by (rule lit_rect_issued)
  qed
  have meet: "\<forall>v\<in>{SegF, SegB, SegE, SegC}.
      seg_on m (seg_bit v) \<and> seg_on m (seg_bit SegG) \<longrightarrow>
        seg_rect x y w h t v \<in> set (issued c c')
      \<and> seg_rect x y w h t SegG \<in> set (issued c c')
      \<and> (0 \<le> h \<and> 1 \<le> t \<and> 1 \<le> w \<longrightarrow>
           boxes_meet (seg_rect x y w h t v) (seg_rect x y w h t SegG))"
    using mem vertical_meets_bar [of h t w _ x y] by blast
  have up: "\<forall>up\<in>{SegF, SegB}. 0 \<le> h \<and> 0 \<le> t \<and> 0 \<le> w \<longrightarrow>
      (boxes_overlap (seg_rect x y w h t up) (seg_rect x y w h t SegG)
         \<longleftrightarrow> 2 \<le> h \<and> 2 \<le> t \<and> 1 \<le> w)"
    using upper_overlap [of h t w _ x y] by blast
  have lo: "\<forall>lo\<in>{SegE, SegC}. 0 \<le> h \<and> 0 \<le> t \<and> 0 \<le> w \<longrightarrow>
      (boxes_overlap (seg_rect x y w h t lo) (seg_rect x y w h t SegG)
         \<longleftrightarrow> 2 \<le> h \<and> 1 \<le> w \<and> (if even h then 1 \<le> t else 3 \<le> t))"
    using lower_overlap [of h t w _ x y] by blast
  have eqs: "seg_rect x y w h t SegA = DrawBox x y w t"
    "seg_rect x y w h t SegG = DrawBox x (y + h sdiv 2 - t sdiv 2) w t"
    "seg_rect x y w h t SegD = DrawBox x (y + h - t) w t"
    "seg_rect x y w h t SegF = DrawBox x y t (h sdiv 2)"
    "seg_rect x y w h t SegB = DrawBox (x + w - t) y t (h sdiv 2)"
    "seg_rect x y w h t SegE = DrawBox x (y + h - h sdiv 2) t (h sdiv 2)"
    "seg_rect x y w h t SegC = DrawBox (x + w - t) (y + h - h sdiv 2) t (h sdiv 2)"
    "box_top (seg_rect x y w h t SegG) + t sdiv 2 = y + h sdiv 2"
    by simp_all
  show ?thesis
    by (intro exI [of _ m] exI [of _ c'] conjI m s i eqs meet up lo)
qed

theorem segdigit_geometry_witness:
  "(0::int) \<le> 8 \<and> (8::int) \<le> 9 \<and> (0::int) \<le> 60 \<and> (1::int) \<le> 7 \<and> (1::int) \<le> 23
   \<and> even (60::int) \<and> seg_on 127 (seg_bit SegF) \<and> seg_on 127 (seg_bit SegE)
   \<and> seg_on 127 (seg_bit SegG)
   \<and> (\<exists>c'. segdigit \<lparr>calls = [], font = FontPrimary\<rparr> 28 2 23 60 7 8 = Some c'
         \<and> issued \<lparr>calls = [], font = FontPrimary\<rparr> c'
             = [DrawBox 28 2 23 7, DrawBox 28 29 23 7, DrawBox 28 55 23 7, DrawBox 28 2 7 30,
                DrawBox 44 2 7 30, DrawBox 28 32 7 30, DrawBox 44 32 7 30])
   \<and> boxes_meet (DrawBox 28 2 7 30) (DrawBox 28 29 23 7)
   \<and> boxes_overlap (DrawBox 28 2 7 30) (DrawBox 28 29 23 7)
   \<and> boxes_overlap (DrawBox 44 2 7 30) (DrawBox 28 29 23 7)
   \<and> boxes_overlap (DrawBox 28 32 7 30) (DrawBox 28 29 23 7)
   \<and> boxes_overlap (DrawBox 44 32 7 30) (DrawBox 28 29 23 7)"
  using segdigit_geometry [of 8 "\<lparr>calls = [], font = FontPrimary\<rparr>" 28 2 23 60 7]
  by (auto simp add: segmap_at_def segmap_def seg_on_bit draw_order_def signed_divide_int_def)

subsection \<open>C8: digits out of range\<close>

text \<open>
  Claim C8. For every digit argument outside 0..9, the blank sentinel \<open>-1\<close> among them,
  \<^verbatim>\<open>segdigit\<close> draws nothing and returns the canvas as it received it. Consequently
  the table is never read out of range: whatever the argument, \<^verbatim>\<open>segdigit\<close> does not
  end in \<open>None\<close>, the result of a read outside \<^verbatim>\<open>segmap\<close>.
\<close>

theorem segdigit_out_of_range:
  "(d < 0 \<or> d > 9 \<longrightarrow> segdigit c x y w h t d = Some c)
   \<and> segdigit c x y w h t (- 1) = Some c
   \<and> segdigit c x y w h t d \<noteq> None"
proof -
  have "segdigit c x y w h t d \<noteq> None" by (simp add: segdigit_calls)
  moreover have "d < 0 \<or> d > 9 \<longrightarrow> segdigit c x y w h t d = Some c"
    by (simp add: segdigit_def)
  moreover have "segdigit c x y w h t (- 1) = Some c" by (simp add: segdigit_def)
  ultimately show ?thesis by auto
qed

theorem segdigit_out_of_range_witness:
  "segdigit \<lparr>calls = [DrawBox 1 2 3 4], font = FontSecondary\<rparr> 2 2 23 60 7 (- 1)
     = Some \<lparr>calls = [DrawBox 1 2 3 4], font = FontSecondary\<rparr>
   \<and> segdigit \<lparr>calls = [], font = FontPrimary\<rparr> 2 2 23 60 7 10
     = Some \<lparr>calls = [], font = FontPrimary\<rparr>"
  using segdigit_out_of_range [of "- 1" "\<lparr>calls = [DrawBox 1 2 3 4], font = FontSecondary\<rparr>" 2 2 23 60 7]
    segdigit_out_of_range [of 10 "\<lparr>calls = [], font = FontPrimary\<rparr>" 2 2 23 60 7]
  by simp

subsection \<open>C9: every call within the canvas\<close>

text \<open>
  Claim C9. For every valid time sample (hour 0..23, minute 0..59, second 0..59) the
  callback returns, and every box, every frame and every text origin among its calls has
  coordinates that are not negative and lies within the 128 by 64 canvas.
\<close>

theorem calls_within_canvas:
  assumes "0 \<le> hour dt" and "hour dt \<le> 23"
    and "0 \<le> minute dt" and "minute dt \<le> 59"
    and "0 \<le> second dt" and "second dt \<le> 59"
  shows "\<exists>c'. draw_cb dt c = Some c' \<and> (\<forall>call\<in>set (issued c c'). in_canvas call)"
  unfolding draw_cb_calls
  using clock_digits_in_canvas [of dt] meridiem_calls_in_canvas [of "hour dt"]
    progress_frames_in_canvas [OF draw_cb_count_le [of "second dt"]]
  by (simp add: frame_calls_def ball_Un)

theorem calls_within_canvas_witness:
  "(0::int) \<le> 23 \<and> (23::int) \<le> 23 \<and> (0::int) \<le> 59 \<and> (59::int) \<le> 59
   \<and> (\<exists>c'. draw_cb \<lparr>hour = 23, minute = 59, second = 59\<rparr> \<lparr>calls = [], font = FontSecondary\<rparr>
              = Some c'
         \<and> list_all in_canvas (issued \<lparr>calls = [], font = FontSecondary\<rparr> c'))"
  using calls_within_canvas [of "\<lparr>hour = 23, minute = 59, second = 59\<rparr>"
      "\<lparr>calls = [], font = FontSecondary\<rparr>"]
  by (auto simp add: list_all_iff)

subsection \<open>C10: the font\<close>

text \<open>
  Claim C10 says that \<^verbatim>\<open>FontPrimary\<close> is restored before the callback exits, so that no
  font change escapes a frame. The callback does not save the font it finds: it selects
  \<^verbatim>\<open>FontPrimary\<close> whatever the font was. Called at 15:47:52 on a canvas whose font is
  \<^verbatim>\<open>FontBigNumbers\<close>, it returns a canvas whose font is \<^verbatim>\<open>FontPrimary\<close>, not the font
  of entry: the change escapes.
\<close>

theorem font_change_escapes:
  "font \<lparr>calls = [], font = FontBigNumbers\<rparr> = FontBigNumbers
   \<and> map_option font
        (draw_cb \<lparr>hour = 15, minute = 47, second = 52\<rparr> \<lparr>calls = [], font = FontBigNumbers\<rparr>)
       = Some FontPrimary
   \<and> map_option font
        (draw_cb \<lparr>hour = 15, minute = 47, second = 52\<rparr> \<lparr>calls = [], font = FontBigNumbers\<rparr>)
       \<noteq> Some (font \<lparr>calls = [], font = FontBigNumbers\<rparr>)"
  by (simp add: draw_cb_calls)

text \<open>
  Claim C10, amended. Every invocation of the callback returns with the font of the canvas
  set to \<^verbatim>\<open>FontPrimary\<close>. \<^verbatim>\<open>FontKeyboard\<close> is selected only immediately before the
  text label is drawn, and \<^verbatim>\<open>FontPrimary\<close> is selected right after it, as the last call:
  the calls of the invocation end with the selection of \<^verbatim>\<open>FontKeyboard\<close>, the one text
  label, and the selection of \<^verbatim>\<open>FontPrimary\<close>, and no call before these three selects a
  font. The font on return is the font on entry exactly when the font on entry was
  \<^verbatim>\<open>FontPrimary\<close>: only then does no font change escape the frame.
\<close>

theorem font_restored:
  "\<exists>c'. draw_cb dt c = Some c' \<and> font c' = FontPrimary
     \<and> (\<exists>pre lbl. issued c c' = pre @ [SetFont FontKeyboard, lbl, SetFont FontPrimary]
           \<and> is_str lbl \<and> (\<forall>call\<in>set pre. \<not> is_font call))
     \<and> (font c' = font c \<longleftrightarrow> font c = FontPrimary)"
proof -
  let ?pre = "clock_digits dt @ progress_frames 0 (draw_cb_count (second dt))"
  let ?lbl = "if 12 \<le> hour dt then DrawStr ap_x (ap_y0 + 15) ''PM''
              else DrawStr ap_x (ap_y0 + 7) ''AM''"
  have "filter is_font ?pre = []"
    by (simp add: clock_digits_filter progress_frames_filter)
  then have p: "\<forall>call\<in>set ?pre. \<not> is_font call"
    by (simp only: filter_empty_conv)
  have i: "frame_calls dt = ?pre @ [SetFont FontKeyboard, ?lbl, SetFont FontPrimary]"
    by (simp add: frame_calls_def meridiem_calls_def)
  have l: "is_str ?lbl" by simp
  have e: "(FontPrimary = font c) = (font c = FontPrimary)" by auto
  show ?thesis unfolding draw_cb_calls using p i l e
    by (intro exI [of _ "c\<lparr>calls := calls c @ frame_calls dt, font := FontPrimary\<rparr>"] conjI
        exI [of _ ?pre] exI [of _ ?lbl]) simp_all
qed

theorem font_restored_witness:
  "(\<exists>c'. draw_cb \<lparr>hour = 15, minute = 47, second = 52\<rparr> \<lparr>calls = [], font = FontBigNumbers\<rparr>
           = Some c'
      \<and> font c' = FontPrimary
      \<and> font c' \<noteq> font \<lparr>calls = [], font = FontBigNumbers\<rparr>
      \<and> filter is_font (issued \<lparr>calls = [], font = FontBigNumbers\<rparr> c')
          = [SetFont FontKeyboard, SetFont FontPrimary])
   \<and> (\<exists>c'. draw_cb \<lparr>hour = 15, minute = 47, second = 52\<rparr> \<lparr>calls = [], font = FontPrimary\<rparr>
           = Some c'
      \<and> font c' = font \<lparr>calls = [], font = FontPrimary\<rparr>)"
  using font_restored [of "\<lparr>hour = 15, minute = 47, second = 52\<rparr>"
      "\<lparr>calls = [], font = FontBigNumbers\<rparr>"]
    font_restored [of "\<lparr>hour = 15, minute = 47, second = 52\<rparr>"
      "\<lparr>calls = [], font = FontPrimary\<rparr>"]
  by (auto simp add: filter_empty_conv is_str_not_font)

end
